theory Spec2Isabelle
  imports Complex_Main
begin

section \<open>Configuration\<close>

text \<open>
  The module-level constants of \<^verbatim>\<open>orderblock_sccaner.py\<close>. The analysis functions
  below take the thresholds as arguments; the functions of the source are their
  instances at these constants.
\<close>

definition MIN_BULLISH_MOVE :: real where
  "MIN_BULLISH_MOVE = 2 / 100"

definition LOOKBACK_CANDLES :: nat where
  "LOOKBACK_CANDLES = 50"

definition ZONE_TOUCH_TOLERANCE :: real where
  "ZONE_TOUCH_TOLERANCE = 1 / 1000"

section \<open>Data model\<close>

text \<open>
  One row of the OHLCV DataFrame with its index entry. Prices are finite reals: the
  rounding of binary floating point is outside this model. What a float computation
  yields where the reals have no value (a division by zero, the maximum of an empty
  column, the shifted-in cell of \<^verbatim>\<open>shift(-1)\<close>) is kept, as a value of \<open>fval\<close>.
\<close>

record bar =
  Index :: int
  Open :: real
  High :: real
  Low :: real
  Close :: real
  Volume :: real

datatype fval = Fin real | PInf | NInf | NaN

text \<open>\<^verbatim>\<open>x - b\<close> for a finite \<open>b\<close>.\<close>

fun fsub :: "fval \<Rightarrow> real \<Rightarrow> fval" where
  "fsub (Fin a) b = Fin (a - b)"
| "fsub PInf b = PInf"
| "fsub NInf b = NInf"
| "fsub NaN b = NaN"

text \<open>
  \<^verbatim>\<open>x / b\<close> for a finite \<open>b\<close>, on numpy floats: a zero divisor gives an infinity or
  NaN (with a warning), it does not raise.
\<close>

fun fdiv :: "fval \<Rightarrow> real \<Rightarrow> fval" where
  "fdiv (Fin a) b =
     (if b = 0 then (if 0 < a then PInf else if a < 0 then NInf else NaN)
      else Fin (a / b))"
| "fdiv PInf b = (if b < 0 then NInf else PInf)"
| "fdiv NInf b = (if b < 0 then PInf else NInf)"
| "fdiv NaN b = NaN"

text \<open>\<^verbatim>\<open>x >= m\<close> for a finite \<open>m\<close>: every comparison with NaN is false.\<close>

fun fge :: "fval \<Rightarrow> real \<Rightarrow> bool" where
  "fge (Fin a) m = (m \<le> a)"
| "fge PInf m = True"
| "fge NInf m = False"
| "fge NaN m = False"

record order_block =
  zone_high :: real
  zone_low :: real
  timestamp :: int
  strength :: fval

section \<open>Zone interaction\<close>

text \<open>
  \<^verbatim>\<open>check_zone_interaction\<close>, with the tolerance fraction as an argument. The chained
  comparisons \<^verbatim>\<open>a <= b <= c\<close> are conjunctions.
\<close>

definition check_zone_interaction_tol ::
    "real \<Rightarrow> real \<Rightarrow> real \<Rightarrow> real \<Rightarrow> real \<Rightarrow> real \<Rightarrow> string" where
  "check_zone_interaction_tol tol current_price current_low current_high zh zl =
     (let tolerance = zh * tol in
      if zl \<le> current_price \<and> current_price \<le> zh then ''Inside Zone''
      else if (current_low - tolerance \<le> zh \<and> zh \<le> current_high + tolerance) \<or>
              (current_low - tolerance \<le> zl \<and> zl \<le> current_high + tolerance)
           then ''Touching Zone''
      else if zh < current_low then ''Above Zone''
      else ''Below Zone'')"

definition check_zone_interaction :: "real \<Rightarrow> real \<Rightarrow> real \<Rightarrow> real \<Rightarrow> real \<Rightarrow> string" where
  "check_zone_interaction = check_zone_interaction_tol ZONE_TOUCH_TOLERANCE"

text \<open>The two tests of the classifier, named for the statements below.\<close>

definition inside_zone :: "real \<Rightarrow> real \<Rightarrow> real \<Rightarrow> bool" where
  "inside_zone p zh zl = (zl \<le> p \<and> p \<le> zh)"

definition touches_zone :: "real \<Rightarrow> real \<Rightarrow> real \<Rightarrow> real \<Rightarrow> real \<Rightarrow> bool" where
  "touches_zone eps lo hi zh zl =
     ((lo - eps \<le> zh \<and> zh \<le> hi + eps) \<or> (lo - eps \<le> zl \<and> zl \<le> hi + eps))"

section \<open>Order block detection\<close>

text \<open>\<^verbatim>\<open>df.tail(n)\<close>: the last \<open>n\<close> rows, all of them when there are fewer.\<close>

definition tail_df :: "nat \<Rightarrow> 'a list \<Rightarrow> 'a list" where
  "tail_df n df = drop (length df - n) df"

text \<open>\<^verbatim>\<open>iloc[a:b]\<close>: a slice is clipped at the end of the frame, it never raises.\<close>

definition iloc_slice :: "nat \<Rightarrow> nat \<Rightarrow> 'a list \<Rightarrow> 'a list" where
  "iloc_slice a b df = take (b - a) (drop a df)"

text \<open>\<^verbatim>\<open>.max()\<close> of a column: NaN when the column is empty.\<close>

fun col_max :: "real list \<Rightarrow> fval" where
  "col_max [] = NaN"
| "col_max (x # xs) = Fin (fold max xs x)"

definition is_bearish :: "bar \<Rightarrow> bool" where
  "is_bearish b = (Close b < Open b)"

definition is_bullish :: "bar \<Rightarrow> bool" where
  "is_bullish b = (Open b < Close b)"

text \<open>\<^verbatim>\<open>High.shift(-1)\<close>: the next row's high, NaN in the last row.\<close>

definition next_high :: "bar list \<Rightarrow> nat \<Rightarrow> fval" where
  "next_high w i = (if Suc i < length w then Fin (High (w ! Suc i)) else NaN)"

definition move_percent :: "bar list \<Rightarrow> nat \<Rightarrow> fval" where
  "move_percent w i = fdiv (fsub (next_high w i) (Low (w ! i))) (Low (w ! i))"

definition subsequent_high :: "bar list \<Rightarrow> nat \<Rightarrow> fval" where
  "subsequent_high w i = col_max (map High (iloc_slice (i + 1) (i + 4) w))"

text \<open>The first test of the loop body (lines 74 to 76).\<close>

definition qualifies :: "real \<Rightarrow> bar list \<Rightarrow> nat \<Rightarrow> bool" where
  "qualifies mm w i =
     (is_bearish (w ! i) \<and> is_bullish (w ! (i + 1)) \<and> fge (move_percent w i) mm)"

text \<open>The second test (line 79).\<close>

definition reconfirms :: "real \<Rightarrow> bar list \<Rightarrow> nat \<Rightarrow> bool" where
  "reconfirms mm w i =
     fge (fdiv (fsub (subsequent_high w i) (Low (w ! i))) (Low (w ! i))) mm"

definition confirmed :: "real \<Rightarrow> bar list \<Rightarrow> nat \<Rightarrow> bool" where
  "confirmed mm w i = (qualifies mm w i \<and> reconfirms mm w i)"

text \<open>The dictionary appended for row \<open>i\<close> (lines 80 to 85).\<close>

definition block_at :: "bar list \<Rightarrow> nat \<Rightarrow> order_block" where
  "block_at w i =
     \<lparr>zone_high = High (w ! i), zone_low = Low (w ! i),
      timestamp = Index (w ! i), strength = move_percent w i\<rparr>"

text \<open>\<^verbatim>\<open>range(len(recent_df) - 3)\<close>: empty when the frame has at most 3 rows.\<close>

definition candidate_indices :: "bar list \<Rightarrow> nat list" where
  "candidate_indices w = [0..<length w - 3]"

text \<open>One iteration of the loop, on the list \<^verbatim>\<open>order_blocks\<close>.\<close>

definition scan_step :: "real \<Rightarrow> bar list \<Rightarrow> order_block list \<Rightarrow> nat \<Rightarrow> order_block list" where
  "scan_step mm w obs i =
     (if qualifies mm w i then
        (if reconfirms mm w i then obs @ [block_at w i] else obs)
      else obs)"

definition order_blocks :: "real \<Rightarrow> bar list \<Rightarrow> order_block list" where
  "order_blocks mm w = foldl (scan_step mm w) [] (candidate_indices w)"

text \<open>
  \<^verbatim>\<open>detect_bullish_order_block\<close> with the two thresholds as arguments; \<open>None\<close> for
  the frame is Python's \<^verbatim>\<open>None\<close>. The length guard reads the whole frame, before
  \<^verbatim>\<open>tail\<close> is taken.
\<close>

fun detect_order_block :: "real \<Rightarrow> nat \<Rightarrow> bar list option \<Rightarrow> order_block option" where
  "detect_order_block mm lookback None = None"
| "detect_order_block mm lookback (Some df) =
     (if length df < 5 then None
      else let recent_df = tail_df lookback df;
               obs = order_blocks mm recent_df
           in if obs \<noteq> [] then Some (last obs) else None)"

definition detect_bullish_order_block :: "bar list option \<Rightarrow> order_block option" where
  "detect_bullish_order_block = detect_order_block MIN_BULLISH_MOVE LOOKBACK_CANDLES"

text \<open>
  The single forward pass of the design notes: no list, the tracked block is
  overwritten at each confirmation.
\<close>

definition track_step :: "real \<Rightarrow> bar list \<Rightarrow> order_block option \<Rightarrow> nat \<Rightarrow> order_block option" where
  "track_step mm w cur i = (if confirmed mm w i then Some (block_at w i) else cur)"

fun detect_order_block_streaming ::
    "real \<Rightarrow> nat \<Rightarrow> bar list option \<Rightarrow> order_block option" where
  "detect_order_block_streaming mm lookback None = None"
| "detect_order_block_streaming mm lookback (Some df) =
     (if length df < 5 then None
      else let recent_df = tail_df lookback df
           in foldl (track_step mm recent_df) None (candidate_indices recent_df))"

section \<open>Aggregation to four-hour bars\<close>

text \<open>
  Lines 43 to 49 of \<^verbatim>\<open>fetch_stock_data\<close>:
  \<^verbatim>\<open>df.resample('4H').agg({'Open': 'first', 'High': 'max', 'Low': 'min',
  'Close': 'last', 'Volume': 'sum'}).dropna()\<close>.
  \<open>Index\<close> counts seconds from midnight of the frame's first day, the origin at which
  pandas anchors the bins; a bin is closed on the left and labelled by its left edge.
  \<^verbatim>\<open>resample\<close> lays out every bin from the one holding the earliest row to the one
  holding the latest; a bin without rows aggregates to NaN cells (\<open>None\<close>) and a zero
  volume, and \<^verbatim>\<open>dropna\<close> removes the rows that have a NaN cell.
\<close>

definition FOUR_HOURS :: int where
  "FOUR_HOURS = 4 * 3600"

record resampled_row =
  r_index :: int
  r_open :: "real option"
  r_high :: "real option"
  r_low :: "real option"
  r_close :: "real option"
  r_volume :: real

definition bin_of :: "int \<Rightarrow> bar \<Rightarrow> int" where
  "bin_of width b = Index b div width"

definition bin_rows :: "int \<Rightarrow> bar list \<Rightarrow> int \<Rightarrow> bar list" where
  "bin_rows width df k = filter (\<lambda>b. bin_of width b = k) df"

fun agg_first :: "real list \<Rightarrow> real option" where
  "agg_first [] = None"
| "agg_first (x # xs) = Some x"

fun agg_last :: "real list \<Rightarrow> real option" where
  "agg_last [] = None"
| "agg_last (x # xs) = Some (last (x # xs))"

fun agg_max :: "real list \<Rightarrow> real option" where
  "agg_max [] = None"
| "agg_max (x # xs) = Some (fold max xs x)"

fun agg_min :: "real list \<Rightarrow> real option" where
  "agg_min [] = None"
| "agg_min (x # xs) = Some (fold min xs x)"

definition agg_bin :: "int \<Rightarrow> bar list \<Rightarrow> int \<Rightarrow> resampled_row" where
  "agg_bin width df k =
     (let rows = bin_rows width df k in
      \<lparr>r_index = k * width,
       r_open = agg_first (map Open rows),
       r_high = agg_max (map High rows),
       r_low = agg_min (map Low rows),
       r_close = agg_last (map Close rows),
       r_volume = sum_list (map Volume rows)\<rparr>)"

fun first_bin :: "int \<Rightarrow> bar list \<Rightarrow> int" where
  "first_bin width [] = 0"
| "first_bin width (b # bs) = fold min (map (bin_of width) bs) (bin_of width b)"

fun last_bin :: "int \<Rightarrow> bar list \<Rightarrow> int" where
  "last_bin width [] = 0"
| "last_bin width (b # bs) = fold max (map (bin_of width) bs) (bin_of width b)"

definition resample :: "int \<Rightarrow> bar list \<Rightarrow> resampled_row list" where
  "resample width df =
     (if df = [] then []
      else map (agg_bin width df) [first_bin width df..last_bin width df])"

fun dropna_row :: "resampled_row \<Rightarrow> bar option" where
  "dropna_row r =
     (case (r_open r, r_high r, r_low r, r_close r) of
        (Some o', Some h, Some l, Some c) \<Rightarrow>
          Some \<lparr>Index = r_index r, Open = o', High = h, Low = l, Close = c,
                Volume = r_volume r\<rparr>
      | _ \<Rightarrow> None)"

definition dropna :: "resampled_row list \<Rightarrow> bar list" where
  "dropna rs = List.map_filter dropna_row rs"

definition aggregate :: "int \<Rightarrow> bar list \<Rightarrow> bar list" where
  "aggregate width df = dropna (resample width df)"

text \<open>The time covered by a frame: latest index minus earliest index.\<close>

fun time_span :: "bar list \<Rightarrow> int" where
  "time_span [] = 0"
| "time_span (b # bs) =
     fold max (map Index bs) (Index b) - fold min (map Index bs) (Index b)"

text \<open>
  The bar that aggregates the rows of bin \<open>k\<close> when there are some: the first open,
  the highest high, the lowest low, the last close and the summed volume, labelled
  with the left edge of the bin.
\<close>

definition bin_bar :: "int \<Rightarrow> bar list \<Rightarrow> int \<Rightarrow> bar" where
  "bin_bar width df k =
     (let rows = bin_rows width df k in
      \<lparr>Index = k * width,
       Open = Open (hd rows),
       High = Max (High ` set rows),
       Low = Min (Low ` set rows),
       Close = Close (last rows),
       Volume = sum_list (map Volume rows)\<rparr>)"

section \<open>Example frames\<close>

text \<open>
  The four bars of the scenario in the specification (the fields it leaves open are
  filled in), a bar to put in front of them, and a frame of four-hour bars with two
  confirmed candidates, at rows 0 and 2.
\<close>

definition scenario_window :: "bar list" where
  "scenario_window =
     [\<lparr>Index = 0, Open = 100, High = 102, Low = 98, Close = 97, Volume = 1000\<rparr>,
      \<lparr>Index = 14400, Open = 97, High = 110, Low = 96, Close = 108, Volume = 1000\<rparr>,
      \<lparr>Index = 28800, Open = 108, High = 111, Low = 107, Close = 110, Volume = 1000\<rparr>,
      \<lparr>Index = 43200, Open = 110, High = 109, Low = 105, Close = 106, Volume = 1000\<rparr>]"

definition earlier_bar :: bar where
  "earlier_bar = \<lparr>Index = - 14400, Open = 99, High = 101, Low = 98, Close = 100, Volume = 1000\<rparr>"

definition two_block_frame :: "bar list" where
  "two_block_frame =
     [\<lparr>Index = 0, Open = 100, High = 102, Low = 98, Close = 97, Volume = 1000\<rparr>,
      \<lparr>Index = 14400, Open = 97, High = 110, Low = 96, Close = 108, Volume = 1000\<rparr>,
      \<lparr>Index = 28800, Open = 108, High = 111, Low = 100, Close = 101, Volume = 1000\<rparr>,
      \<lparr>Index = 43200, Open = 101, High = 115, Low = 100, Close = 114, Volume = 1000\<rparr>,
      \<lparr>Index = 57600, Open = 114, High = 116, Low = 112, Close = 115, Volume = 1000\<rparr>,
      \<lparr>Index = 72000, Open = 115, High = 113, Low = 110, Close = 111, Volume = 1000\<rparr>]"

text \<open>
  A bar to follow the scenario's four, one hourly bar at 09:15, and two hourly bars at
  11:15 and 12:15, on either side of the bin edge at 12:00.
\<close>

definition later_bar :: bar where
  "later_bar = \<lparr>Index = 57600, Open = 106, High = 108, Low = 104, Close = 107, Volume = 1000\<rparr>"

definition single_hourly_bar :: bar where
  "single_hourly_bar = \<lparr>Index = 33300, Open = 100, High = 102, Low = 98, Close = 101, Volume = 500\<rparr>"

definition straddling_frame :: "bar list" where
  "straddling_frame =
     [\<lparr>Index = 40500, Open = 100, High = 102, Low = 98, Close = 101, Volume = 500\<rparr>,
      \<lparr>Index = 44100, Open = 101, High = 103, Low = 100, Close = 102, Volume = 700\<rparr>]"

section \<open>Helper lemmas\<close>

lemma scan_fold:
  "foldl (scan_step mm w) obs is = obs @ map (block_at w) (filter (confirmed mm w) is)"
  by (induction "is" arbitrary: obs) (simp_all add: scan_step_def confirmed_def)

lemma order_blocks_filter:
  "order_blocks mm w = map (block_at w) (filter (confirmed mm w) (candidate_indices w))"
  by (simp add: order_blocks_def scan_fold)

lemma track_fold:
  "foldl (track_step mm w) cur is =
     (if filter (confirmed mm w) is = [] then cur
      else Some (block_at w (last (filter (confirmed mm w) is))))"
  by (induction "is" arbitrary: cur) (simp_all add: track_step_def)

lemma filter_upt_last:
  assumes "j < n" and "P j" and "\<forall>k. j < k \<and> k < n \<longrightarrow> \<not> P k"
  shows "filter P [0..<n] = filter P [0..<j] @ [j]"
proof -
  have "[0..<n] = [0..<j] @ j # [Suc j..<n]"
    using assms(1) by (metis less_imp_le_nat upt_add_eq_append upt_conv_Cons le0 le_add_diff_inverse)
  moreover have "filter P [Suc j..<n] = []"
    using assms(3) by (auto simp: filter_empty_conv)
  ultimately show ?thesis using assms(2) by simp
qed

lemma last_confirmed_in:
  assumes "filter (confirmed mm w) (candidate_indices w) \<noteq> []"
  shows "last (filter (confirmed mm w) (candidate_indices w)) < length w - 3
    \<and> confirmed mm w (last (filter (confirmed mm w) (candidate_indices w)))"
proof -
  have "last (filter (confirmed mm w) (candidate_indices w))
      \<in> set (filter (confirmed mm w) (candidate_indices w))"
    using assms by (rule last_in_set)
  then show ?thesis by (simp add: candidate_indices_def)
qed

lemma detect_Some_eq:
  "detect_order_block mm lb (Some df) =
     (if length df < 5 \<or> filter (confirmed mm (tail_df lb df)) (candidate_indices (tail_df lb df)) = []
      then None
      else Some (block_at (tail_df lb df)
             (last (filter (confirmed mm (tail_df lb df)) (candidate_indices (tail_df lb df))))))"
  by (simp add: Let_def order_blocks_filter last_map)

lemma length_tail_df: "length (tail_df n df) = min n (length df)"
  by (simp add: tail_df_def)

lemmas detect_eval =
  confirmed_def qualifies_def reconfirms_def is_bearish_def is_bullish_def
  move_percent_def next_high_def subsequent_high_def iloc_slice_def block_at_def
  candidate_indices_def tail_df_def

lemma two_block_result:
  "detect_order_block (2 / 100) 50 (Some two_block_frame) =
     Some \<lparr>zone_high = 111, zone_low = 100, timestamp = 28800, strength = Fin (15 / 100)\<rparr>"
  by (simp add: detect_Some_eq two_block_frame_def detect_eval del: detect_order_block.simps)

lemma fold_min_Min: "fold min xs (x::int) = Min (set (x # xs))"
  by (simp only: Min.set_eq_fold)

lemma fold_max_Max: "fold max xs (x::int) = Max (set (x # xs))"
  by (simp only: Max.set_eq_fold)

lemma first_bin_Min:
  "df \<noteq> [] \<Longrightarrow> first_bin width df = Min (bin_of width ` set df)"
  by (cases df) (simp_all add: fold_min_Min)

lemma last_bin_Max:
  "df \<noteq> [] \<Longrightarrow> last_bin width df = Max (bin_of width ` set df)"
  by (cases df) (simp_all add: fold_max_Max)

lemma time_span_Max_Min:
  "df \<noteq> [] \<Longrightarrow> time_span df = Max (Index ` set df) - Min (Index ` set df)"
  by (cases df) (simp_all add: fold_min_Min fold_max_Max)

lemma first_bin_attained:
  assumes "df \<noteq> []"
  shows "\<exists>b \<in> set df. bin_of width b = first_bin width df"
proof -
  have "Min (bin_of width ` set df) \<in> bin_of width ` set df"
    using assms by (intro Min_in) simp_all
  then show ?thesis unfolding first_bin_Min [OF assms] by (metis imageE)
qed

lemma last_bin_attained:
  assumes "df \<noteq> []"
  shows "\<exists>b \<in> set df. bin_of width b = last_bin width df"
proof -
  have "Max (bin_of width ` set df) \<in> bin_of width ` set df"
    using assms by (intro Max_in) simp_all
  then show ?thesis unfolding last_bin_Max [OF assms] by (metis imageE)
qed

lemma first_bin_le_last_bin:
  assumes "df \<noteq> []"
  shows "first_bin width df \<le> last_bin width df"
proof -
  have "Min (bin_of width ` set df) \<in> bin_of width ` set df"
    using assms by (intro Min_in) simp_all
  then have "Min (bin_of width ` set df) \<le> Max (bin_of width ` set df)"
    by (intro Max_ge) simp_all
  then show ?thesis using assms by (simp add: first_bin_Min last_bin_Max)
qed

lemma index_diff_le_span:
  assumes "a \<in> set df" and "b \<in> set df"
  shows "Index a - Index b \<le> time_span df"
proof -
  have ne: "df \<noteq> []" using assms(1) by auto
  have "Index a \<le> Max (Index ` set df)" using assms(1) by simp
  moreover have "Min (Index ` set df) \<le> Index b" using assms(2) by simp
  ultimately show ?thesis using ne by (simp add: time_span_Max_Min)
qed

lemma bin_kept:
  assumes "b \<in> set df" and "bin_of width b = k"
  shows "\<exists>r. dropna_row (agg_bin width df k) = Some r \<and> Index r = k * width"
proof -
  have "b \<in> set (bin_rows width df k)"
    using assms by (simp add: bin_rows_def)
  then obtain x xs where "bin_rows width df k = x # xs"
    by (cases "bin_rows width df k") auto
  then show ?thesis by (simp add: agg_bin_def)
qed

lemma length_dropna: "length (dropna rs) \<le> length rs"
  by (simp add: dropna_def map_filter_def)

lemma bins_within_span:
  assumes ne: "df \<noteq> []" and w: "0 < width" and span: "time_span df < width"
  shows "last_bin width df \<le> first_bin width df + 1"
proof -
  obtain a where a: "a \<in> set df" "bin_of width a = last_bin width df"
    using last_bin_attained [OF ne] by blast
  obtain b where b: "b \<in> set df" "bin_of width b = first_bin width df"
    using first_bin_attained [OF ne] by blast
  have "Index a - Index b \<le> time_span df"
    using a(1) b(1) by (rule index_diff_le_span)
  then have "Index a \<le> Index b + width" using span by simp
  then have "Index a div width \<le> (Index b + width) div width"
    using w by (rule zdiv_mono1)
  also have "(Index b + width) div width = Index b div width + 1"
    using w by simp
  finally show ?thesis using a(2) b(2) by (simp add: bin_of_def)
qed

lemma dropna_agg_bin:
  "dropna_row (agg_bin width df k) =
     (if bin_rows width df k = [] then None else Some (bin_bar width df k))"
proof (cases "bin_rows width df k")
  case Nil
  then show ?thesis by (simp add: agg_bin_def)
next
  case (Cons x xs)
  have mx: "fold max (map High xs) (High x) = Max (High ` set (x # xs))"
    using Max.set_eq_fold [of "High x" "map High xs"] by simp
  have mn: "fold min (map Low xs) (Low x) = Min (Low ` set (x # xs))"
    using Min.set_eq_fold [of "Low x" "map Low xs"] by simp
  have cl: "last (Close x # map Close xs) = Close (last (x # xs))"
    using last_map [of "x # xs" Close] by simp
  show ?thesis
    using Cons mx mn cl by (simp add: agg_bin_def bin_bar_def Let_def)
qed

lemma dropna_map_agg:
  "dropna (map (agg_bin width df) ks) =
     map (bin_bar width df) (filter (\<lambda>k. bin_rows width df k \<noteq> []) ks)"
  by (induction ks) (simp_all add: dropna_def dropna_agg_bin del: dropna_row.simps)

lemma bin_rows_nonempty_iff:
  "bin_rows width df k \<noteq> [] \<longleftrightarrow> (\<exists>b \<in> set df. bin_of width b = k)"
  by (auto simp: bin_rows_def filter_empty_conv)

lemma bin_in_range:
  assumes "b \<in> set df"
  shows "first_bin width df \<le> bin_of width b \<and> bin_of width b \<le> last_bin width df"
proof -
  have ne: "df \<noteq> []" using assms by auto
  have "Min (bin_of width ` set df) \<le> bin_of width b" using assms by simp
  moreover have "bin_of width b \<le> Max (bin_of width ` set df)" using assms by simp
  ultimately show ?thesis by (simp add: first_bin_Min [OF ne] last_bin_Max [OF ne])
qed

lemma aggregate_bins:
  "aggregate width df =
     map (bin_bar width df)
       (filter (\<lambda>k. bin_rows width df k \<noteq> []) [first_bin width df..last_bin width df])"
proof (cases "df = []")
  case True
  then show ?thesis by (simp add: aggregate_def resample_def dropna_def bin_rows_def)
next
  case False
  then show ?thesis by (simp add: aggregate_def resample_def dropna_map_agg)
qed

lemma aggregate_labels:
  "Index ` set (aggregate width df) = (\<lambda>b. bin_of width b * width) ` set df"
proof -
  have "{k \<in> {first_bin width df..last_bin width df}. bin_rows width df k \<noteq> []}
      = bin_of width ` set df"
    using bin_in_range [of _ df width] by (auto simp: bin_rows_nonempty_iff)
  then have "set (filter (\<lambda>k. bin_rows width df k \<noteq> []) [first_bin width df..last_bin width df])
      = bin_of width ` set df"
    by simp
  moreover have "Index \<circ> bin_bar width df = (\<lambda>k. k * width)"
    by (rule ext) (simp add: bin_bar_def Let_def)
  ultimately show ?thesis
    by (simp add: aggregate_bins image_image bin_bar_def Let_def)
qed

section \<open>The zone interaction classifier\<close>

text \<open>
  C2. \<^verbatim>\<open>check_zone_interaction\<close> is total and its four outcomes are mutually
  exclusive: for every price, low, high, zone and tolerance fraction the result is one
  of the four status strings, and each status is returned exactly under its own guard
  (inside; else touching; else low above the zone; else below). The bounds
  \<open>low \<le> high\<close>, \<open>zone_low \<le> zone_high\<close> and \<open>tolerance \<ge> 0\<close> of the claim are
  not needed.
\<close>

theorem check_zone_interaction_total_exclusive:
  fixes tol p lo hi zh zl :: real
  defines "r \<equiv> check_zone_interaction_tol tol p lo hi zh zl"
    and "eps \<equiv> zh * tol"
  shows "r \<in> {''Inside Zone'', ''Touching Zone'', ''Above Zone'', ''Below Zone''}
    \<and> (r = ''Inside Zone'') = inside_zone p zh zl
    \<and> (r = ''Touching Zone'') = (\<not> inside_zone p zh zl \<and> touches_zone eps lo hi zh zl)
    \<and> (r = ''Above Zone'') =
        (\<not> inside_zone p zh zl \<and> \<not> touches_zone eps lo hi zh zl \<and> zh < lo)
    \<and> (r = ''Below Zone'') =
        (\<not> inside_zone p zh zl \<and> \<not> touches_zone eps lo hi zh zl \<and> \<not> zh < lo)
    \<and> card {s. s = r} = 1"
  unfolding r_def eps_def check_zone_interaction_tol_def inside_zone_def touches_zone_def Let_def
  by simp

text \<open>
  C4. The zone is a closed interval and the inside test comes first: whenever
  \<open>zone_low \<le> close \<le> zone_high\<close>, in particular when the close equals either
  bound, the result is Inside Zone, whatever low, high and tolerance are.
\<close>

theorem check_zone_interaction_inside:
  "zl \<le> p \<Longrightarrow> p \<le> zh \<Longrightarrow> check_zone_interaction_tol tol p lo hi zh zl = ''Inside Zone''"
  by (simp add: check_zone_interaction_tol_def)

theorem check_zone_interaction_inside_witness:
  "(98::real) \<le> 102 \<and> (102::real) \<le> 102
   \<and> check_zone_interaction_tol (1 / 1000) 102 130 140 102 98 = ''Inside Zone''
   \<and> (98::real) \<le> 98 \<and> (98::real) \<le> 102
   \<and> check_zone_interaction_tol (1 / 1000) 98 1 2 102 98 = ''Inside Zone''"
  using check_zone_interaction_inside [of 98 102 102 "1 / 1000" 130 140]
    check_zone_interaction_inside [of 98 98 102 "1 / 1000" 1 2]
  by simp

text \<open>
  C5. With a zero tolerance, the bar's high equal to \<open>zone_low\<close> and the close outside
  the zone, a bar (\<open>low \<le> high\<close>) is classified Touching Zone, neither Above Zone nor
  Below Zone.
\<close>

theorem check_zone_interaction_touch_boundary:
  assumes "zh * tol = 0" and "hi = zl" and "\<not> inside_zone p zh zl" and "lo \<le> hi"
  shows "check_zone_interaction_tol tol p lo hi zh zl = ''Touching Zone''
    \<and> check_zone_interaction_tol tol p lo hi zh zl \<noteq> ''Above Zone''
    \<and> check_zone_interaction_tol tol p lo hi zh zl \<noteq> ''Below Zone''"
proof -
  have touch: "lo - zh * tol \<le> zl \<and> zl \<le> hi + zh * tol"
    using assms(2,4) unfolding assms(1) by simp
  have out: "\<not> (zl \<le> p \<and> p \<le> zh)"
    using assms(3) by (simp add: inside_zone_def)
  have "check_zone_interaction_tol tol p lo hi zh zl = ''Touching Zone''"
    unfolding check_zone_interaction_tol_def Let_def using touch out by simp
  then show ?thesis by simp
qed

theorem check_zone_interaction_touch_boundary_witness:
  "(105::real) * 0 = 0 \<and> (102::real) = 102 \<and> \<not> inside_zone 100 105 102 \<and> (99::real) \<le> 102
   \<and> check_zone_interaction_tol 0 100 99 102 105 102 = ''Touching Zone''"
  using check_zone_interaction_touch_boundary [of 105 0 102 102 100 99]
  by (simp add: inside_zone_def)

section \<open>The detector\<close>

text \<open>
  C9. Collecting every confirmed candidate and returning the last element of the list
  gives the same result as one forward pass that overwrites the tracked block at each
  confirmation, for every frame (also the absent one) and every configuration.
\<close>

theorem streaming_equals_collecting:
  "detect_order_block_streaming mm lookback df = detect_order_block mm lookback df"
proof (cases df)
  case None
  then show ?thesis by simp
next
  case (Some d)
  then show ?thesis
    by (simp add: Let_def order_blocks_filter track_fold last_map)
qed

text \<open>
  C1. When the window (the last \<open>lookback\<close> rows of the frame) has confirmed
  candidates at rows \<open>i < j\<close> and \<open>j\<close> is the last confirmed row, the detector
  returns the block of row \<open>j\<close>: its high and low as the zone, its index entry as the
  timestamp and its \<^verbatim>\<open>move_percent\<close> as the strength.
\<close>

theorem detect_returns_last_confirmed:
  assumes w: "w = tail_df lookback df"
    and ij: "i < j" "j < length w - 3"
    and ci: "confirmed mm w i"
    and cj: "confirmed mm w j"
    and last: "\<forall>k. j < k \<and> k < length w - 3 \<longrightarrow> \<not> confirmed mm w k"
  shows "detect_order_block mm lookback (Some df) = Some (block_at w j)
    \<and> zone_high (block_at w j) = High (w ! j)
    \<and> zone_low (block_at w j) = Low (w ! j)
    \<and> timestamp (block_at w j) = Index (w ! j)
    \<and> strength (block_at w j) = move_percent w j"
proof -
  have f: "filter (confirmed mm w) (candidate_indices w)
      = filter (confirmed mm w) [0..<j] @ [j]"
    unfolding candidate_indices_def using ij(2) cj last by (rule filter_upt_last)
  have "5 \<le> length w" using ij by simp
  then have "5 \<le> length df" using w by (simp add: length_tail_df)
  then have "detect_order_block mm lookback (Some df) = Some (block_at w j)"
    using f w by (simp add: detect_Some_eq del: detect_order_block.simps)
  then show ?thesis by (simp add: block_at_def)
qed

theorem detect_returns_last_confirmed_witness:
  "two_block_frame = tail_df 50 two_block_frame \<and> (0::nat) < 2 \<and> 2 < length two_block_frame - 3
   \<and> confirmed (2 / 100) two_block_frame 0 \<and> confirmed (2 / 100) two_block_frame 2
   \<and> length two_block_frame - 3 = 3
   \<and> detect_order_block (2 / 100) 50 (Some two_block_frame) = Some (block_at two_block_frame 2)
   \<and> zone_high (block_at two_block_frame 2) = 111
   \<and> zone_low (block_at two_block_frame 2) = 100
   \<and> timestamp (block_at two_block_frame 2) = 28800
   \<and> strength (block_at two_block_frame 2) = Fin (15 / 100)"
proof -
  have w: "two_block_frame = tail_df 50 two_block_frame"
    by (simp add: tail_df_def two_block_frame_def)
  have ij: "(0::nat) < 2" "2 < length two_block_frame - 3"
    by (simp_all add: two_block_frame_def)
  have ci: "confirmed (2 / 100) two_block_frame 0"
    by (simp add: two_block_frame_def detect_eval)
  have cj: "confirmed (2 / 100) two_block_frame 2"
    by (simp add: two_block_frame_def detect_eval)
  have len: "length two_block_frame = 6"
    by (simp add: two_block_frame_def)
  have lst: "\<forall>k. 2 < k \<and> k < length two_block_frame - 3 \<longrightarrow> \<not> confirmed (2 / 100) two_block_frame k"
    unfolding len by auto
  have v: "zone_high (block_at two_block_frame 2) = 111"
    "zone_low (block_at two_block_frame 2) = 100"
    "timestamp (block_at two_block_frame 2) = 28800"
    "strength (block_at two_block_frame 2) = Fin (15 / 100)"
    by (simp_all add: two_block_frame_def detect_eval)
  show ?thesis
    using detect_returns_last_confirmed [OF w ij ci cj lst] w ij ci cj len v by simp
qed

text \<open>
  C8. A block returned by the detector, on a frame whose bars all have
  \<open>Low \<le> High\<close>, has \<open>zone_low \<le> zone_high\<close>, a strength that passes the
  \<^verbatim>\<open>>= min_bullish_move\<close> test, and the timestamp of the bearish bar of the window
  that it was built from.
\<close>

theorem detect_block_invariant:
  assumes res: "detect_order_block mm lookback (Some df) = Some ob"
    and inv: "\<forall>b \<in> set df. Low b \<le> High b"
  shows "zone_low ob \<le> zone_high ob \<and> fge (strength ob) mm
    \<and> (\<exists>i < length (tail_df lookback df) - 3.
          is_bearish (tail_df lookback df ! i)
          \<and> confirmed mm (tail_df lookback df) i
          \<and> ob = block_at (tail_df lookback df) i
          \<and> timestamp ob = Index (tail_df lookback df ! i))"
proof -
  define w where "w = tail_df lookback df"
  define j where "j = last (filter (confirmed mm w) (candidate_indices w))"
  have ne: "filter (confirmed mm w) (candidate_indices w) \<noteq> []"
    and ob: "ob = block_at w j"
    using res unfolding detect_Some_eq w_def j_def by (auto split: if_splits)
  have j: "j < length w - 3" "confirmed mm w j"
    using last_confirmed_in [OF ne] by (simp_all add: j_def)
  have "w ! j \<in> set w" using j(1) by simp
  then have "w ! j \<in> set df"
    unfolding w_def tail_df_def using set_drop_subset by fast
  then have lh: "Low (w ! j) \<le> High (w ! j)" using inv by blast
  have q: "is_bearish (w ! j)" "fge (move_percent w j) mm"
    using j(2) by (simp_all add: confirmed_def qualifies_def)
  show ?thesis
    using lh q j ob unfolding w_def [symmetric] by (auto simp: block_at_def)
qed

theorem detect_block_invariant_witness:
  "detect_order_block (2 / 100) 50 (Some two_block_frame) =
     Some \<lparr>zone_high = 111, zone_low = 100, timestamp = 28800, strength = Fin (15 / 100)\<rparr>
   \<and> list_all (\<lambda>b. Low b \<le> High b) two_block_frame
   \<and> (100::real) \<le> 111 \<and> fge (Fin (15 / 100)) (2 / 100)
   \<and> (\<exists>i < length (tail_df 50 two_block_frame) - 3.
          is_bearish (tail_df 50 two_block_frame ! i)
          \<and> (28800::int) = Index (tail_df 50 two_block_frame ! i))"
proof -
  have inv: "\<forall>b \<in> set two_block_frame. Low b \<le> High b"
    by (simp add: two_block_frame_def)
  show ?thesis
    using detect_block_invariant [OF two_block_result inv] two_block_result inv
    by (auto simp: list_all_iff)
qed

text \<open>
  C10. At every row \<open>i\<close> that the loop visits, \<open>i \<le> len - 4\<close>, so the slice
  \<^verbatim>\<open>iloc[i+1:i+4]\<close> holds exactly the three rows \<open>i+1\<close>, \<open>i+2\<close>, \<open>i+3\<close>: it is
  never clipped at the end of the window, and the subsequent high is the largest of
  their three highs.
\<close>

theorem subsequent_window_full:
  "\<forall>i \<in> set (candidate_indices w).
     i \<le> length w - 4 \<and> i + 3 < length w
     \<and> iloc_slice (i + 1) (i + 4) w = [w ! (i + 1), w ! (i + 2), w ! (i + 3)]
     \<and> length (iloc_slice (i + 1) (i + 4) w) = 3
     \<and> subsequent_high w i
         = Fin (max (max (High (w ! (i + 1))) (High (w ! (i + 2)))) (High (w ! (i + 3))))"
proof
  fix i assume "i \<in> set (candidate_indices w)"
  then have i: "i + 3 < length w" by (simp add: candidate_indices_def)
  have "take 3 (drop (i + 1) w) = [w ! (i + 1), w ! (i + 2), w ! (i + 3)]"
    using i by (simp add: take_Suc_conv_app_nth numeral_3_eq_3 add.commute)
  then have s: "iloc_slice (i + 1) (i + 4) w = [w ! (i + 1), w ! (i + 2), w ! (i + 3)]"
    by (simp add: iloc_slice_def)
  show "i \<le> length w - 4 \<and> i + 3 < length w
     \<and> iloc_slice (i + 1) (i + 4) w = [w ! (i + 1), w ! (i + 2), w ! (i + 3)]
     \<and> length (iloc_slice (i + 1) (i + 4) w) = 3
     \<and> subsequent_high w i
         = Fin (max (max (High (w ! (i + 1))) (High (w ! (i + 2)))) (High (w ! (i + 3))))"
  proof -
    have "i \<le> length w - 4" using i by arith
    moreover have "subsequent_high w i
         = Fin (max (max (High (w ! (i + 1))) (High (w ! (i + 2)))) (High (w ! (i + 3))))"
      unfolding subsequent_high_def s by (simp add: max.commute)
    ultimately show ?thesis using i s by simp
  qed
qed

theorem subsequent_window_full_witness:
  "(2::nat) \<in> set (candidate_indices two_block_frame)
   \<and> length (iloc_slice (2 + 1) (2 + 4) two_block_frame) = 3
   \<and> 2 + 3 < length two_block_frame
   \<and> subsequent_high two_block_frame 2 = Fin 116"
proof -
  have m: "(2::nat) \<in> set (candidate_indices two_block_frame)"
    by (simp add: candidate_indices_def two_block_frame_def)
  note at2 = subsequent_window_full [of two_block_frame, THEN bspec, OF m]
  have "subsequent_high two_block_frame 2 = Fin 116"
    using at2 by (simp add: two_block_frame_def)
  then show ?thesis
    using at2 m by simp
qed

text \<open>
  C3, as amended. The length guard reads the frame, not the window. A window of fewer
  than 5 bars gives no result when the frame itself has fewer than 5 bars or
  \<open>lookback_candles\<close> is not 4 (so for every \<open>lookback_candles\<close> of at least 5, the
  shipped 50 among them), for every \<open>min_bullish_move\<close>.
\<close>

theorem detect_insufficient_window:
  assumes "length (tail_df lookback df) < 5" and "lookback \<noteq> 4 \<or> length df < 5"
  shows "detect_order_block mm lookback (Some df) = None"
proof (cases "length df < 5")
  case True
  then show ?thesis by simp
next
  case False
  then have "length (tail_df lookback df) \<le> 3"
    using assms by (simp add: length_tail_df)
  then have "candidate_indices (tail_df lookback df) = []"
    by (simp add: candidate_indices_def)
  then show ?thesis by (simp add: detect_Some_eq del: detect_order_block.simps)
qed

theorem detect_insufficient_window_witness:
  "length (tail_df 50 scenario_window) < 5 \<and> (50::nat) \<noteq> 4 \<and> length scenario_window < 5
   \<and> detect_order_block (2 / 100) 50 (Some scenario_window) = None
   \<and> length (tail_df 3 two_block_frame) < 5 \<and> (3::nat) \<noteq> 4
   \<and> detect_order_block (2 / 100) 3 (Some two_block_frame) = None"
proof -
  have a: "length (tail_df 50 scenario_window) < 5" "(50::nat) \<noteq> 4 \<or> length scenario_window < 5"
    by (simp_all add: tail_df_def scenario_window_def)
  have b: "length (tail_df 3 two_block_frame) < 5" "(3::nat) \<noteq> 4 \<or> length two_block_frame < 5"
    by (simp_all add: tail_df_def two_block_frame_def)
  show ?thesis
  proof -
    have "length scenario_window < 5" by (simp add: scenario_window_def)
    then show ?thesis
      using detect_insufficient_window [OF a] detect_insufficient_window [OF b] a(1) b(1)
      by simp
  qed
qed

text \<open>
  The claim C3 as stated fails for \<open>lookback_candles = 4\<close> on a frame of five bars:
  the window has four bars and the detector returns a block.
\<close>

theorem four_bar_window_detected:
  "length (tail_df 4 (earlier_bar # scenario_window)) < 5
   \<and> detect_order_block (2 / 100) 4 (Some (earlier_bar # scenario_window)) =
       Some \<lparr>zone_high = 102, zone_low = 98, timestamp = 0, strength = Fin (12 / 98)\<rparr>"
  by (simp add: detect_Some_eq scenario_window_def detect_eval del: detect_order_block.simps)

text \<open>
  C7, as amended. For bars \<open>b0\<close> (O=100, H=102, L=98, C=97), \<open>b1\<close> (O=97, H=110,
  L=96, C=108), \<open>b2\<close> (H=111) and \<open>b3\<close> (H=109) and \<open>min_bullish_move = 0.02\<close>:
  the series of these four bars alone gives no result, for any lookback; followed by
  one more bar, under a lookback of at least 5, or as the last four bars of a series of
  five under a lookback of 4, the detector returns the block with \<open>zone_high = 102\<close>,
  \<open>zone_low = 98\<close>, the timestamp of \<open>b0\<close> and strength \<open>12/98\<close>, which is
  0.1224 to four decimals.
\<close>

theorem scenario_order_block:
  assumes b0: "Open b0 = 100" "High b0 = 102" "Low b0 = 98" "Close b0 = 97"
    and b1: "Open b1 = 97" "High b1 = 110" "Low b1 = 96" "Close b1 = 108"
    and b2: "High b2 = 111"
    and b3: "High b3 = 109"
    and lb: "5 \<le> lookback"
  shows "detect_order_block (2 / 100) n (Some [b0, b1, b2, b3]) = None
    \<and> detect_order_block (2 / 100) lookback (Some [b0, b1, b2, b3, b4]) =
        Some \<lparr>zone_high = 102, zone_low = 98, timestamp = Index b0, strength = Fin (12 / 98)\<rparr>
    \<and> detect_order_block (2 / 100) 4 (Some [p, b0, b1, b2, b3]) =
        Some \<lparr>zone_high = 102, zone_low = 98, timestamp = Index b0, strength = Fin (12 / 98)\<rparr>
    \<and> \<bar>12 / 98 - 1224 / 10000\<bar> < (1 / 10000 :: real)"
proof -
  have short: "detect_order_block (2 / 100) n (Some [b0, b1, b2, b3]) = None"
    by simp
  have t5: "tail_df lookback [b0, b1, b2, b3, b4] = [b0, b1, b2, b3, b4]"
    using lb by (simp add: tail_df_def)
  have c0: "confirmed (2 / 100) [b0, b1, b2, b3, b4] 0"
    using b0 b1 b2 b3 by (simp add: detect_eval)
  have c1: "\<not> confirmed (2 / 100) [b0, b1, b2, b3, b4] 1"
    using b1 by (simp add: confirmed_def qualifies_def is_bearish_def)
  have blk5: "block_at [b0, b1, b2, b3, b4] 0 =
      \<lparr>zone_high = 102, zone_low = 98, timestamp = Index b0, strength = Fin (12 / 98)\<rparr>"
    using b0 b1 by (simp add: block_at_def move_percent_def next_high_def)
  have five: "detect_order_block (2 / 100) lookback (Some [b0, b1, b2, b3, b4]) =
      Some \<lparr>zone_high = 102, zone_low = 98, timestamp = Index b0, strength = Fin (12 / 98)\<rparr>"
    unfolding detect_Some_eq t5 using c0 c1 blk5 by (simp add: candidate_indices_def)
  have t4: "tail_df 4 [p, b0, b1, b2, b3] = [b0, b1, b2, b3]"
    by (simp add: tail_df_def)
  have d0: "confirmed (2 / 100) [b0, b1, b2, b3] 0"
    using b0 b1 b2 b3 by (simp add: detect_eval)
  have blk4: "block_at [b0, b1, b2, b3] 0 =
      \<lparr>zone_high = 102, zone_low = 98, timestamp = Index b0, strength = Fin (12 / 98)\<rparr>"
    using b0 b1 by (simp add: block_at_def move_percent_def next_high_def)
  have four: "detect_order_block (2 / 100) 4 (Some [p, b0, b1, b2, b3]) =
      Some \<lparr>zone_high = 102, zone_low = 98, timestamp = Index b0, strength = Fin (12 / 98)\<rparr>"
    unfolding detect_Some_eq t4 using d0 blk4 by (simp add: candidate_indices_def)
  have approx: "\<bar>12 / 98 - 1224 / 10000\<bar> < (1 / 10000 :: real)"
    by simp
  show ?thesis using short five four approx by blast
qed

theorem scenario_order_block_witness:
  "detect_order_block (2 / 100) 50 (Some scenario_window) = None
   \<and> detect_order_block (2 / 100) 50 (Some (scenario_window @ [later_bar])) =
       Some \<lparr>zone_high = 102, zone_low = 98, timestamp = 0, strength = Fin (12 / 98)\<rparr>
   \<and> detect_order_block (2 / 100) 4 (Some (earlier_bar # scenario_window)) =
       Some \<lparr>zone_high = 102, zone_low = 98, timestamp = 0, strength = Fin (12 / 98)\<rparr>"
proof -
  have w: "scenario_window =
      [scenario_window ! 0, scenario_window ! 1, scenario_window ! 2, scenario_window ! 3]"
    by (simp add: scenario_window_def)
  have b0: "Open (scenario_window ! 0) = 100" "High (scenario_window ! 0) = 102"
    "Low (scenario_window ! 0) = 98" "Close (scenario_window ! 0) = 97"
    by (simp_all add: scenario_window_def)
  have b1: "Open (scenario_window ! 1) = 97" "High (scenario_window ! 1) = 110"
    "Low (scenario_window ! 1) = 96" "Close (scenario_window ! 1) = 108"
    by (simp_all add: scenario_window_def)
  have b2: "High (scenario_window ! 2) = 111"
    by (simp add: scenario_window_def)
  have b3: "High (scenario_window ! 3) = 109"
    by (simp add: scenario_window_def)
  have lb: "(5::nat) \<le> 50" by simp
  have t0: "Index (scenario_window ! 0) = 0"
    by (simp add: scenario_window_def)
  note r = scenario_order_block [OF b0 b1 b2 b3 lb, of 50 later_bar earlier_bar]
  have a5: "scenario_window @ [later_bar] =
      [scenario_window ! 0, scenario_window ! 1, scenario_window ! 2, scenario_window ! 3, later_bar]"
    by (subst w) simp
  have a4: "earlier_bar # scenario_window =
      [earlier_bar, scenario_window ! 0, scenario_window ! 1, scenario_window ! 2, scenario_window ! 3]"
    by (subst w) simp
  show ?thesis
    unfolding a5 a4 using r t0 w by (simp del: detect_order_block.simps)
qed

text \<open>
  The claim C7 as stated fails on the code as shipped: the series of the four bars has
  fewer than 5 rows and the detector returns no result.
\<close>

theorem scenario_series_no_result:
  "detect_bullish_order_block (Some scenario_window) = None"
  by (simp add: detect_bullish_order_block_def scenario_window_def)

section \<open>The aggregator\<close>

text \<open>
  C6, as amended. For a non-empty frame whose time span is shorter than the bin width,
  the aggregation returns a non-empty frame of one or two bars: the partial bins are
  emitted. The result is exactly the bars of the bins that hold a row, in ascending
  order, each aggregated by first open, highest high, lowest low, last close and summed
  volume; its labels are the left edges of the bins of the input rows, the first of
  them the bin of the earliest row; and every input row finds the bar of its bin in the
  result.
\<close>

theorem aggregate_short_series:
  assumes ne: "df \<noteq> []" and w: "0 < width" and span: "time_span df < width"
  shows "aggregate width df \<noteq> []
    \<and> length (aggregate width df) \<le> 2
    \<and> Index (hd (aggregate width df)) = first_bin width df * width
    \<and> aggregate width df =
        map (bin_bar width df)
          (filter (\<lambda>k. bin_rows width df k \<noteq> []) [first_bin width df..last_bin width df])
    \<and> Index ` set (aggregate width df) = (\<lambda>b. bin_of width b * width) ` set df
    \<and> (\<forall>b \<in> set df. bin_bar width df (bin_of width b) \<in> set (aggregate width df))"
proof -
  define k0 where "k0 = first_bin width df"
  define k1 where "k1 = last_bin width df"
  have le: "k0 \<le> k1"
    unfolding k0_def k1_def using ne by (rule first_bin_le_last_bin)
  have near: "k1 \<le> k0 + 1"
    unfolding k0_def k1_def using ne w span by (rule bins_within_span)
  obtain b where b: "b \<in> set df" "bin_of width b = k0"
    using first_bin_attained [OF ne] unfolding k0_def by blast
  obtain r where r: "dropna_row (agg_bin width df k0) = Some r" "Index r = k0 * width"
    using bin_kept [OF b] by blast
  have bins: "[k0..k1] = k0 # [k0 + 1..k1]"
    using le by (simp add: upto_rec1)
  have agg: "aggregate width df = dropna (map (agg_bin width df) [k0..k1])"
    using ne by (simp add: aggregate_def resample_def k0_def k1_def)
  have hd: "aggregate width df = r # dropna (map (agg_bin width df) [k0 + 1..k1])"
    unfolding agg bins using r(1) by (simp add: dropna_def del: dropna_row.simps)
  have "length (aggregate width df) \<le> length [k0..k1]"
    unfolding agg using length_dropna [of "map (agg_bin width df) [k0..k1]"] by simp
  also have "\<dots> \<le> 2" using near le by simp
  finally have len: "length (aggregate width df) \<le> 2" .
  have first: "aggregate width df \<noteq> [] \<and> length (aggregate width df) \<le> 2
      \<and> Index (hd (aggregate width df)) = first_bin width df * width"
    using hd len r(2) by (simp add: k0_def)
  have every: "\<forall>b \<in> set df. bin_bar width df (bin_of width b) \<in> set (aggregate width df)"
  proof
    fix c assume c: "c \<in> set df"
    have "bin_of width c \<in> set (filter (\<lambda>k. bin_rows width df k \<noteq> [])
        [first_bin width df..last_bin width df])"
      using c bin_in_range [OF c, of width] by (auto simp: bin_rows_nonempty_iff)
    then have "bin_bar width df (bin_of width c) \<in> bin_bar width df `
        set (filter (\<lambda>k. bin_rows width df k \<noteq> []) [first_bin width df..last_bin width df])"
      by (rule imageI)
    then show "bin_bar width df (bin_of width c) \<in> set (aggregate width df)"
      unfolding aggregate_bins by (simp only: set_map)
  qed
  show ?thesis
    using first every aggregate_bins [of width df] aggregate_labels [of width df] by blast
qed

theorem aggregate_short_series_witness:
  "straddling_frame \<noteq> [] \<and> 0 < FOUR_HOURS \<and> time_span straddling_frame < FOUR_HOURS
   \<and> aggregate FOUR_HOURS straddling_frame \<noteq> []
   \<and> length (aggregate FOUR_HOURS straddling_frame) \<le> 2
   \<and> Index (hd (aggregate FOUR_HOURS straddling_frame)) = 28800
   \<and> Index ` set (aggregate FOUR_HOURS straddling_frame) = {28800, 43200}
   \<and> aggregate FOUR_HOURS straddling_frame =
       [\<lparr>Index = 28800, Open = 100, High = 102, Low = 98, Close = 101, Volume = 500\<rparr>,
        \<lparr>Index = 43200, Open = 101, High = 103, Low = 100, Close = 102, Volume = 700\<rparr>]"
proof -
  have ne: "straddling_frame \<noteq> []" by (simp add: straddling_frame_def)
  have w: "0 < FOUR_HOURS" by (simp add: FOUR_HOURS_def)
  have span: "time_span straddling_frame < FOUR_HOURS"
    by (simp add: straddling_frame_def FOUR_HOURS_def)
  have fb: "first_bin FOUR_HOURS straddling_frame * FOUR_HOURS = 28800"
    by (simp add: straddling_frame_def FOUR_HOURS_def bin_of_def)
  have labels: "(\<lambda>b. bin_of FOUR_HOURS b * FOUR_HOURS) ` set straddling_frame = {28800, 43200}"
    by (simp add: straddling_frame_def FOUR_HOURS_def bin_of_def)
  have val: "aggregate FOUR_HOURS straddling_frame =
       [\<lparr>Index = 28800, Open = 100, High = 102, Low = 98, Close = 101, Volume = 500\<rparr>,
        \<lparr>Index = 43200, Open = 101, High = 103, Low = 100, Close = 102, Volume = 700\<rparr>]"
    by (simp add: aggregate_def resample_def dropna_def agg_bin_def bin_rows_def bin_of_def
        straddling_frame_def FOUR_HOURS_def upto_rec1)
  note t = aggregate_short_series [OF ne w span]
  have c1: "aggregate FOUR_HOURS straddling_frame \<noteq> []"
    using t by blast
  have c2: "length (aggregate FOUR_HOURS straddling_frame) \<le> 2"
    using t by blast
  have "Index (hd (aggregate FOUR_HOURS straddling_frame))
      = first_bin FOUR_HOURS straddling_frame * FOUR_HOURS"
    using t by blast
  then have c3: "Index (hd (aggregate FOUR_HOURS straddling_frame)) = 28800"
    by (simp only: fb)
  have "Index ` set (aggregate FOUR_HOURS straddling_frame)
      = (\<lambda>b. bin_of FOUR_HOURS b * FOUR_HOURS) ` set straddling_frame"
    using t by blast
  then have c5: "Index ` set (aggregate FOUR_HOURS straddling_frame) = {28800, 43200}"
    by (simp only: labels)
  show ?thesis
    using ne w span c1 c2 c3 c5 val by blast
qed

text \<open>
  The claim C6 as stated fails on a frame of one hourly bar at 09:15: its span is zero
  and the result is that bar, labelled 08:00.
\<close>

theorem single_bar_aggregated:
  "[single_hourly_bar] \<noteq> [] \<and> time_span [single_hourly_bar] < FOUR_HOURS
   \<and> aggregate FOUR_HOURS [single_hourly_bar] = [single_hourly_bar\<lparr>Index := 28800\<rparr>]"
  by (simp add: aggregate_def resample_def dropna_def agg_bin_def bin_rows_def bin_of_def
      single_hourly_bar_def FOUR_HOURS_def)

end
